theory Spec2Isabelle
  imports Main "HOL-Library.Word"
begin

section \<open>Failures\<close>

text \<open>
  A thrown C++ object. \<open>Cancelled\<close> is \<open>ell::ex::Cancelled\<close>, \<open>StdException n\<close> any other
  class derived from \<open>std::exception\<close> (named \<open>n\<close>), and \<open>NonStd n\<close> a thrown object whose type
  does not derive from \<open>std::exception\<close> (\<open>throw 42;\<close>).
\<close>

datatype exn = Cancelled | StdException string | NonStd string

text \<open>
  Modelled from the spec: \<open>exceptions/cancelled.hpp\<close>, which declares \<open>ex::Cancelled\<close>, is
  not among the sources. The spec has a \<open>Cancelled\<close> that reaches the coroutine's top frame
  stored in the result slot, so \<open>ex::Cancelled\<close> is matched by the top frame's handler
  \<open>catch (const std::exception &)\<close>: it derives from \<open>std::exception\<close>.
\<close>

fun is_std_exception :: "exn \<Rightarrow> bool" where
  "is_std_exception Cancelled = True"
| "is_std_exception (StdException n) = True"
| "is_std_exception (NonStd n) = False"

text \<open>
  What ends the program instead of returning to the caller: a null pointer dereferenced
  (undefined behaviour), a failed \<open>assert\<close> or \<open>ELL_ASSERT\<close>, a failed \<open>static_assert\<close> (no
  program is built), an exception that leaves the coroutine function uncaught, and the
  call of a coroutine that is complete or is not a coroutine.
\<close>

datatype fatal =
    NullDeref
  | AssertFailed
  | StaticAssertFailed
  | Uncaught exn
  | NotCallable

text \<open>How a call that returns to its caller ends: with a value or with a thrown exception.\<close>

datatype 'r res = Returned 'r | Raised exn

section \<open>The result holder (details/result\_holder.hpp)\<close>

text \<open>
  What \<open>store\<close> and \<open>get\<close> use of the static type \<open>T\<close>: \<open>sizeof(T)\<close>, \<open>alignof(T)\<close>, the state in
  which \<open>T\<close>'s move constructor leaves the object it moves from, and the state in which
  \<open>T\<close>'s destructor leaves the storage of the object it ends, as a later read of that
  storage finds it (both the identity for \<open>int\<close> and every other trivially copyable and
  trivially destructible type). Copy and move constructors are taken to build an object
  equal to their argument, and not to throw. A holder is used at one type \<open>T\<close>, as the
  comment of the class demands.
\<close>

record 'a ctype =
  sizeof :: nat
  alignof :: nat
  moved_from :: "'a \<Rightarrow> 'a"
  destroyed :: "'a \<Rightarrow> 'a"

text \<open>Where \<open>obj_\<close> points: into the inline buffer \<open>storage_\<close>, or to an object made by \<open>new\<close>.\<close>

datatype place = Inline | Heap

text \<open>
  A member \<open>x_\<close> of the source is the field \<open>x_m\<close> here (a name cannot end with an
  underscore). \<open>eptr_m\<close> is the \<open>std::exception_ptr\<close> (\<open>None\<close> when null); \<open>obj_m\<close> is the
  type-erased pointer (\<open>None\<close> when null) with the place and the value of the object it
  points to.
\<close>

record 'a ResultHolderImpl =
  eptr_m :: "exn option"
  obj_m :: "(place \<times> 'a) option"

definition ResultHolderImpl_init :: "'a ResultHolderImpl" where
  "ResultHolderImpl_init = \<lparr>eptr_m = None, obj_m = None\<rparr>"

text \<open>
  \<open>obj_ = TypeErasedUniquePtr(ptr, deleter)\<close>, once the new object is built at \<open>ptr\<close>: the move
  assignment of \<open>std::unique_ptr\<close> takes the new pointer and then runs the old deleter on
  the old pointer, when that is not null. An old object on the heap is deleted. An old
  pointer into \<open>storage_\<close> has \<open>~T()\<close> run on \<open>storage_\<close>: that ends the old object when the new
  one is on the heap, and it ends the new object when that has just been built in
  \<open>storage_\<close>, over the old one.
\<close>

definition assign_obj ::
  "'a ctype \<Rightarrow> (place \<times> 'a) option \<Rightarrow> place \<times> 'a \<Rightarrow> (place \<times> 'a) option" where
  "assign_obj ty old new =
     (case old of
        None \<Rightarrow> Some new
      | Some (Heap, w) \<Rightarrow> Some new
      | Some (Inline, w) \<Rightarrow>
          (case new of
             (Inline, v) \<Rightarrow> Some (Inline, destroyed ty v)
           | (Heap, v) \<Rightarrow> Some (Heap, v)))"

text \<open>
  \<open>store<T>(v)\<close> of \<open>ResultHolderImpl<buffer_size_, align_>\<close>: the object is built in \<open>storage_\<close>
  by placement \<open>new\<close> when it fits and by \<open>new\<close> otherwise, and \<open>obj_\<close> is assigned. It has no
  check that the holder is empty.
\<close>

definition store ::
  "nat \<Rightarrow> nat \<Rightarrow> 'a ctype \<Rightarrow> 'a \<Rightarrow> 'a ResultHolderImpl \<Rightarrow> fatal + 'a ResultHolderImpl" where
  "store buffer_size align ty v h =
     (if \<not> alignof ty \<le> align then Inl StaticAssertFailed
      else if sizeof ty \<le> buffer_size then
        Inr (h\<lparr>obj_m := assign_obj ty (obj_m h) (Inline, v)\<rparr>)
      else Inr (h\<lparr>obj_m := assign_obj ty (obj_m h) (Heap, v)\<rparr>))"

text \<open>
  \<open>store_exception(eptr)\<close>: \<open>assert(eptr_ == nullptr)\<close>, then the assignment. The build of
  the tests (tests/CMakeLists.txt) does not define \<open>NDEBUG\<close>, so the assertion is checked.
\<close>

definition store_exception :: "exn \<Rightarrow> 'a ResultHolderImpl \<Rightarrow> fatal + 'a ResultHolderImpl" where
  "store_exception e h =
     (if eptr_m h \<noteq> None then Inl AssertFailed else Inr (h\<lparr>eptr_m := Some e\<rparr>))"

text \<open>
  \<open>get<T>()\<close>: rethrows \<open>eptr_\<close> when it is set (and leaves it set); otherwise dereferences
  \<open>obj_.get()\<close> with no null check and move-constructs the returned value from the stored
  object, which stays where it is, moved from.
\<close>

definition get :: "'a ctype \<Rightarrow> 'a ResultHolderImpl \<Rightarrow> fatal + ('a res \<times> 'a ResultHolderImpl)" where
  "get ty h =
     (case eptr_m h of
        Some e \<Rightarrow> Inr (Raised e, h)
      | None \<Rightarrow>
          (case obj_m h of
             None \<Rightarrow> Inl NullDeref
           | Some (p, v) \<Rightarrow> Inr (Returned v, h\<lparr>obj_m := Some (p, moved_from ty v)\<rparr>)))"

text \<open>\<open>using ResultHolder = ResultHolderImpl<32, 8>\<close>.\<close>

definition ResultHolder_store ::
  "'a ctype \<Rightarrow> 'a \<Rightarrow> 'a ResultHolderImpl \<Rightarrow> fatal + 'a ResultHolderImpl" where
  "ResultHolder_store = store 32 8"

text \<open>The type \<open>int\<close> of the tests' callables: four bytes, trivially copyable, and its
  destructor does nothing.\<close>

definition int_type :: "int ctype" where
  "int_type = \<lparr>sizeof = 4, alignof = 4, moved_from = (\<lambda>v. v), destroyed = (\<lambda>v. v)\<rparr>"

text \<open>A type of 40 bytes whose move constructor and whose destructor leave the default
  value \<open>d\<close> behind.\<close>

definition big_type :: "'a \<Rightarrow> 'a ctype" where
  "big_type d = \<lparr>sizeof = 40, alignof = 8, moved_from = (\<lambda>v. d), destroyed = (\<lambda>v. d)\<rparr>"

section \<open>The task (details/task\_impl.hpp)\<close>

subsection \<open>User code and the coroutine\<close>

text \<open>
  The user callable as the task sees it: it returns a value, throws, does something of
  its own (\<open>Act a\<close>, an observable step labelled \<open>a\<close>), or calls \<open>suspend()\<close>. \<open>Suspend k h\<close>
  goes on as \<open>k\<close> when \<open>suspend()\<close> returns and as \<open>h\<close> when \<open>suspend()\<close> throws: \<open>h\<close> is the
  user's handler, \<open>Throw Cancelled\<close> where the user catches nothing.
\<close>

datatype 'a code =
    Return 'a
  | Throw exn
  | Act nat "'a code"
  | Suspend "'a code" "'a code"

text \<open>A callable with its static return type \<open>decltype(callable())\<close>.\<close>

record 'a callable =
  ret_type :: "'a ctype"
  body :: "'a code"

text \<open>
  The state of \<open>coroutine_\<close>: not a coroutine (default constructed); created, its function
  not entered yet; stopped in the \<open>yield()\<close> of the lambda of \<open>setup_coroutine\<close>, before the
  \<open>try\<close> block (the entry barrier); stopped in the \<open>(*yield_)()\<close> of \<open>suspend()\<close>, with what the
  user code does next; complete (the lambda has returned).
\<close>

datatype 'a coroutine =
    NotACoroutine
  | Created "'a callable"
  | AtBarrier "'a callable"
  | InSuspend "'a ctype" "'a code" "'a code"
  | Complete

text \<open>
  The members of \<open>TaskImpl\<close>. \<open>yield_m\<close> is \<open>None\<close> for \<open>nullptr\<close>. \<open>wait_handler_\<close> is left out:
  \<open>details/wait_handler.hpp\<close> is not among the sources and no function below reads it.
\<close>

record 'a TaskImpl =
  coroutine_m :: "'a coroutine"
  yield_m :: "unit option"
  result_m :: "'a ResultHolderImpl"
  wait_count_m :: "32 word"
  id_m :: "64 word"
  is_active_m :: bool
  cancelled_m :: bool
  pending_cancel_m :: bool

text \<open>What a run of the coroutine lets an observer see: a step of the user's code, or a
  \<open>Cancelled\<close> thrown into the user's code by \<open>suspend()\<close>.\<close>

datatype event = Ran nat | Delivered

text \<open>
  Modelled from the spec: \<open>details/ell_assert.hpp\<close>, which defines the macro \<open>ELL_ASSERT\<close>, is
  not among the sources. The spec has a violated invariant fatal, so \<open>ELL_ASSERT(cond, msg)\<close>
  with a false condition ends the program.
\<close>

definition ELL_ASSERT :: "bool \<Rightarrow> 'a \<Rightarrow> fatal + 'a" where
  "ELL_ASSERT cond rest = (if cond then Inr rest else Inl AssertFailed)"

text \<open>\<open>next_id()\<close> on the static counter \<open>count\<close>: the id returned and the counter after.\<close>

definition next_id :: "64 word \<Rightarrow> fatal + (64 word \<times> 64 word)" where
  "next_id count = ELL_ASSERT (count \<noteq> - 1) (count + 1, count + 1)"

text \<open>
  The second half of \<open>suspend()\<close>, from the return of \<open>(*yield_)()\<close> on: the check of
  \<open>pending_cancel_\<close>. The first half, the switch out of the coroutine, is the \<open>Suspend\<close> case
  of \<open>top_frame\<close>.
\<close>

definition suspend_after_yield :: "'a TaskImpl \<Rightarrow> unit res \<times> 'a TaskImpl" where
  "suspend_after_yield t =
     (if pending_cancel_m t then (Raised Cancelled, t\<lparr>pending_cancel_m := False\<rparr>)
      else (Returned (), t))"

text \<open>
  The \<open>try\<close> block of the coroutine's lambda with \<open>wrap_user_call\<close> (the overload for a
  callable that returns a value; the overload for \<open>void\<close> calls a \<open>store()\<close> with no argument,
  which the \<open>ResultHolderImpl\<close> of the sources does not declare), run until the user code
  suspends or leaves: a returned value is stored, an exception that matches
  \<open>catch (const std::exception &)\<close> is stored, any other leaves the coroutine function.
\<close>

fun top_frame :: "'a ctype \<Rightarrow> 'a code \<Rightarrow> 'a TaskImpl \<Rightarrow> fatal + (event list \<times> 'a TaskImpl)" where
  "top_frame ty (Return v) t =
     (case ResultHolder_store ty v (result_m t) of
        Inl f \<Rightarrow> Inl f
      | Inr h \<Rightarrow> Inr ([], t\<lparr>result_m := h, coroutine_m := Complete\<rparr>))"
| "top_frame ty (Throw e) t =
     (if is_std_exception e then
        (case store_exception e (result_m t) of
           Inl f \<Rightarrow> Inl f
         | Inr h \<Rightarrow> Inr ([], t\<lparr>result_m := h, coroutine_m := Complete\<rparr>))
      else Inl (Uncaught e))"
| "top_frame ty (Act a k) t =
     (case top_frame ty k t of
        Inl f \<Rightarrow> Inl f
      | Inr (evs, t') \<Rightarrow> Inr (Ran a # evs, t'))"
| "top_frame ty (Suspend k h) t = Inr ([], t\<lparr>coroutine_m := InSuspend ty k h\<rparr>)"

text \<open>
  \<open>coroutine_()\<close>: control goes into the coroutine and comes back when it next yields or
  returns. A created coroutine runs the lambda up to its \<open>yield()\<close>; one at the barrier
  enters the \<open>try\<close> block; one inside \<open>suspend()\<close> finishes \<open>suspend()\<close> first.
\<close>

definition call_coroutine :: "'a TaskImpl \<Rightarrow> fatal + (event list \<times> 'a TaskImpl)" where
  "call_coroutine t =
     (case coroutine_m t of
        NotACoroutine \<Rightarrow> Inl NotCallable
      | Created c \<Rightarrow> Inr ([], t\<lparr>yield_m := Some (), coroutine_m := AtBarrier c\<rparr>)
      | AtBarrier c \<Rightarrow> top_frame (ret_type c) (body c) t
      | InSuspend ty k h \<Rightarrow>
          (case suspend_after_yield t of
             (Returned u, t') \<Rightarrow> top_frame ty k t'
           | (Raised e, t') \<Rightarrow>
               (case top_frame ty h t' of
                  Inl f \<Rightarrow> Inl f
                | Inr (evs, t'') \<Rightarrow> Inr (Delivered # evs, t'')))
      | Complete \<Rightarrow> Inl NotCallable)"

subsection \<open>The member functions\<close>

definition setup_coroutine :: "'a callable \<Rightarrow> 'a TaskImpl \<Rightarrow> fatal + (event list \<times> 'a TaskImpl)" where
  "setup_coroutine c t = call_coroutine (t\<lparr>coroutine_m := Created c\<rparr>)"

text \<open>The constructor, on the static counter of \<open>next_id\<close>: the events of the construction,
  the task, and the counter after.\<close>

definition TaskImpl_ctor ::
  "64 word \<Rightarrow> 'a callable \<Rightarrow> fatal + (event list \<times> 'a TaskImpl \<times> 64 word)" where
  "TaskImpl_ctor count c =
     (case next_id count of
        Inl f \<Rightarrow> Inl f
      | Inr (i, count') \<Rightarrow>
          (case setup_coroutine c
                  \<lparr>coroutine_m = NotACoroutine, yield_m = None, result_m = ResultHolderImpl_init,
                   wait_count_m = 0, id_m = i, is_active_m = False, cancelled_m = False,
                   pending_cancel_m = False\<rparr> of
             Inl f \<Rightarrow> Inl f
           | Inr (evs, t) \<Rightarrow> Inr (evs, t, count')))"

definition get_result :: "'a ctype \<Rightarrow> 'a TaskImpl \<Rightarrow> fatal + ('a res \<times> 'a TaskImpl)" where
  "get_result ty t =
     (case get ty (result_m t) of
        Inl f \<Rightarrow> Inl f
      | Inr (r, h) \<Rightarrow> Inr (r, t\<lparr>result_m := h\<rparr>))"

definition resume :: "'a TaskImpl \<Rightarrow> fatal + (event list \<times> 'a TaskImpl)" where
  "resume t = call_coroutine t"

text \<open>\<open>is_complete()\<close> is \<open>!coroutine_\<close>: true when \<open>coroutine_\<close> is complete or not a coroutine.\<close>

definition is_complete :: "'a TaskImpl \<Rightarrow> bool" where
  "is_complete t =
     (case coroutine_m t of NotACoroutine \<Rightarrow> True | Complete \<Rightarrow> True | _ \<Rightarrow> False)"

definition set_active :: "bool \<Rightarrow> 'a TaskImpl \<Rightarrow> 'a TaskImpl" where
  "set_active val t = t\<lparr>is_active_m := val\<rparr>"

definition is_active :: "'a TaskImpl \<Rightarrow> bool" where
  "is_active t = is_active_m t"

definition task_id :: "'a TaskImpl \<Rightarrow> 64 word" where
  "task_id t = id_m t"

definition wait_count :: "'a TaskImpl \<Rightarrow> 32 word" where
  "wait_count t = wait_count_m t"

definition incr_wait_count :: "'a TaskImpl \<Rightarrow> 'a TaskImpl" where
  "incr_wait_count t = t\<lparr>wait_count_m := wait_count_m t + 1\<rparr>"

definition decr_wait_count :: "'a TaskImpl \<Rightarrow> fatal + 'a TaskImpl" where
  "decr_wait_count t =
     ELL_ASSERT (wait_count_m t > 0) (t\<lparr>wait_count_m := wait_count_m t - 1\<rparr>)"

definition cancel :: "'a TaskImpl \<Rightarrow> 'a TaskImpl" where
  "cancel t = t\<lparr>pending_cancel_m := True\<rparr>"

definition cancelled :: "'a TaskImpl \<Rightarrow> bool" where
  "cancelled t = cancelled_m t"

subsection \<open>Callers\<close>

text \<open>
  A caller of a task (the event loop, a primitive, a test) is a sequence of calls of the
  public member functions. \<open>step\<close> makes one call, \<open>run\<close> a sequence; a run stops at the
  first call that ends the program. An exception that \<open>get_result\<close> throws goes to the
  caller, who goes on.
\<close>

datatype op = Resume | Cancel | IncrWaitCount | DecrWaitCount | SetActive bool | GetResult

fun step :: "'a ctype \<Rightarrow> op \<Rightarrow> 'a TaskImpl \<Rightarrow> fatal + (event list \<times> 'a TaskImpl)" where
  "step ty Resume t = resume t"
| "step ty Cancel t = Inr ([], cancel t)"
| "step ty IncrWaitCount t = Inr ([], incr_wait_count t)"
| "step ty DecrWaitCount t =
     (case decr_wait_count t of Inl f \<Rightarrow> Inl f | Inr t' \<Rightarrow> Inr ([], t'))"
| "step ty (SetActive val) t = Inr ([], set_active val t)"
| "step ty GetResult t =
     (case get_result ty t of Inl f \<Rightarrow> Inl f | Inr (r, t') \<Rightarrow> Inr ([], t'))"

fun run :: "'a ctype \<Rightarrow> op list \<Rightarrow> 'a TaskImpl \<Rightarrow> fatal + (event list \<times> 'a TaskImpl)" where
  "run ty [] t = Inr ([], t)"
| "run ty (x # xs) t =
     (case step ty x t of
        Inl f \<Rightarrow> Inl f
      | Inr (evs, t') \<Rightarrow>
          (case run ty xs t' of
             Inl f \<Rightarrow> Inl f
           | Inr (evs', t'') \<Rightarrow> Inr (evs @ evs', t'')))"

section \<open>The current event loop (ell.hpp)\<close>

text \<open>
  \<open>set_current_event_loop(loop, set)\<close> on the thread-local static \<open>current_loop\<close>, which starts
  as \<open>nullptr\<close>: the pointer returned and the static after. A pointer to an event loop is
  \<open>None\<close> when null.
\<close>

definition current_loop_init :: "'l option" where
  "current_loop_init = None"

definition set_current_event_loop :: "'l option \<Rightarrow> bool \<Rightarrow> 'l option \<Rightarrow> 'l option \<times> 'l option" where
  "set_current_event_loop loop set_it current_loop =
     (let current_loop' = (if set_it then loop else current_loop)
      in (current_loop', current_loop'))"

definition get_current_event_loop :: "'l option \<Rightarrow> 'l option \<times> 'l option" where
  "get_current_event_loop current_loop = set_current_event_loop None False current_loop"

text \<open>
  \<open>yield()\<close>, \<open>sleep(duration)\<close> and \<open>yield(callable)\<close> call a member function of
  \<open>DefaultEventLoop\<close> through the pointer that \<open>get_current_event_loop()\<close> returns, with no
  test of the pointer. \<open>details/default_event_loop.hpp\<close> is not among the sources: the
  member function called is a parameter.
\<close>

definition yield :: "('l \<Rightarrow> 'r) \<Rightarrow> 'l option \<Rightarrow> fatal + 'r" where
  "yield suspend_current_task current_loop =
     (case fst (get_current_event_loop current_loop) of
        None \<Rightarrow> Inl NullDeref
      | Some loop \<Rightarrow> Inr (suspend_current_task loop))"

definition sleep :: "('l \<Rightarrow> 'd \<Rightarrow> 'r) \<Rightarrow> 'd \<Rightarrow> 'l option \<Rightarrow> fatal + 'r" where
  "sleep sleep_current_task duration current_loop =
     (case fst (get_current_event_loop current_loop) of
        None \<Rightarrow> Inl NullDeref
      | Some loop \<Rightarrow> Inr (sleep_current_task loop duration))"

definition yield_callable :: "('l \<Rightarrow> 'c \<Rightarrow> 'r) \<Rightarrow> 'c \<Rightarrow> 'l option \<Rightarrow> fatal + 'r" where
  "yield_callable loop_yield c current_loop =
     (case fst (get_current_event_loop current_loop) of
        None \<Rightarrow> Inl NullDeref
      | Some loop \<Rightarrow> Inr (loop_yield loop c))"

section \<open>Terms of the statements\<close>

text \<open>
  How user code leaves the coroutine when it runs on without suspending: with a returned
  value, with a thrown exception, or not at all (\<open>None\<close>) when it calls \<open>suspend()\<close> first.
\<close>

fun leaves :: "'a code \<Rightarrow> 'a res option" where
  "leaves (Return v) = Some (Returned v)"
| "leaves (Throw e) = Some (Raised e)"
| "leaves (Act a k) = leaves k"
| "leaves (Suspend k h) = None"

text \<open>The task that the constructor leaves behind: stopped at the entry barrier, nothing stored.\<close>

definition task_at_barrier :: "64 word \<Rightarrow> 'a callable \<Rightarrow> 'a TaskImpl" where
  "task_at_barrier i c =
     \<lparr>coroutine_m = AtBarrier c, yield_m = Some (), result_m = ResultHolderImpl_init,
      wait_count_m = 0, id_m = i, is_active_m = False, cancelled_m = False,
      pending_cancel_m = False\<rparr>"

text \<open>
  A callable for the examples: it does step 1 and suspends; resumed, it does step 3 and
  returns 42; cancelled, it does step 2 (its cleanup) and lets \<open>Cancelled\<close> through. With it,
  the task after the first \<open>resume()\<close>, the task after a second \<open>resume()\<close>, and the task after
  \<open>cancel()\<close> and a second \<open>resume()\<close>.
\<close>

definition example_callable :: "int callable" where
  "example_callable =
     \<lparr>ret_type = int_type, body = Act 1 (Suspend (Act 3 (Return 42)) (Act 2 (Throw Cancelled)))\<rparr>"

definition suspended_task :: "int TaskImpl" where
  "suspended_task =
     \<lparr>coroutine_m = InSuspend int_type (Act 3 (Return 42)) (Act 2 (Throw Cancelled)),
      yield_m = Some (), result_m = ResultHolderImpl_init, wait_count_m = 0, id_m = 1,
      is_active_m = False, cancelled_m = False, pending_cancel_m = False\<rparr>"

definition returned_task :: "int TaskImpl" where
  "returned_task =
     \<lparr>coroutine_m = Complete, yield_m = Some (),
      result_m = \<lparr>eptr_m = None, obj_m = Some (Inline, 42)\<rparr>, wait_count_m = 0, id_m = 1,
      is_active_m = False, cancelled_m = False, pending_cancel_m = False\<rparr>"

definition cancelled_task :: "int TaskImpl" where
  "cancelled_task =
     \<lparr>coroutine_m = Complete, yield_m = Some (),
      result_m = \<lparr>eptr_m = Some Cancelled, obj_m = None\<rparr>, wait_count_m = 0, id_m = 1,
      is_active_m = False, cancelled_m = False, pending_cancel_m = False\<rparr>"

text \<open>A callable that throws an \<open>int\<close>.\<close>

definition throwing_callable :: "int callable" where
  "throwing_callable = \<lparr>ret_type = int_type, body = Throw (NonStd ''int'')\<rparr>"

section \<open>Unfolding\<close>

lemmas rh_defs =
  ResultHolder_store_def store_def assign_obj_def store_exception_def get_def
  ResultHolderImpl_init_def

lemmas task_defs =
  resume_def call_coroutine_def suspend_after_yield_def cancel_def incr_wait_count_def
  decr_wait_count_def ELL_ASSERT_def set_active_def get_result_def is_complete_def
  setup_coroutine_def TaskImpl_ctor_def next_id_def

lemmas example_defs =
  task_at_barrier_def example_callable_def suspended_task_def cancelled_task_def int_type_def

section \<open>The top frame and one run of the coroutine\<close>

lemma top_frame_no_delivery:
  "top_frame ty c t = Inr (evs, t') \<Longrightarrow> count_list evs Delivered = 0"
  by (induction c arbitrary: evs t') (auto split: sum.splits if_splits)

lemma top_frame_keeps:
  "top_frame ty c t = Inr (evs, t') \<Longrightarrow>
     pending_cancel_m t' = pending_cancel_m t \<and> wait_count_m t' = wait_count_m t
     \<and> cancelled_m t' = cancelled_m t"
  by (induction c arbitrary: evs t') (auto split: sum.splits if_splits)

lemma resume_deliveries:
  assumes "resume t = Inr (evs, t')"
  shows "count_list evs Delivered + (if pending_cancel_m t' then 1 else 0)
       \<le> (if pending_cancel_m t then 1 else 0)"
proof (cases "coroutine_m t")
  case NotACoroutine
  with assms show ?thesis by (simp add: resume_def call_coroutine_def)
next
  case (Created c)
  with assms show ?thesis by (auto simp: resume_def call_coroutine_def)
next
  case (AtBarrier c)
  with assms have "top_frame (ret_type c) (body c) t = Inr (evs, t')"
    by (simp add: resume_def call_coroutine_def)
  then show ?thesis using top_frame_no_delivery top_frame_keeps by fastforce
next
  case (InSuspend ty k h)
  show ?thesis
  proof (cases "pending_cancel_m t")
    case True
    with assms InSuspend obtain evs' where
      tf: "top_frame ty h (t\<lparr>pending_cancel_m := False\<rparr>) = Inr (evs', t')" and ev: "evs = Delivered # evs'"
      by (auto simp: resume_def call_coroutine_def suspend_after_yield_def split: sum.splits)
    from top_frame_no_delivery [OF tf] top_frame_keeps [OF tf] ev True show ?thesis by simp
  next
    case False
    with assms InSuspend have tf: "top_frame ty k t = Inr (evs, t')"
      by (simp add: resume_def call_coroutine_def suspend_after_yield_def)
    from top_frame_no_delivery [OF tf] top_frame_keeps [OF tf] False show ?thesis by simp
  qed
next
  case Complete
  with assms show ?thesis by (simp add: resume_def call_coroutine_def)
qed

lemma step_deliveries:
  assumes "step ty x t = Inr (evs, t')"
  shows "count_list evs Delivered + (if pending_cancel_m t' then 1 else 0)
       \<le> (if x = Cancel then 1 else 0) + (if pending_cancel_m t then 1 else 0)"
proof (cases x)
  case Resume
  with assms resume_deliveries [of t evs t'] show ?thesis by simp
next
  case GetResult
  with assms show ?thesis by (auto simp: get_result_def split: sum.splits)
qed (use assms in \<open>auto simp: cancel_def incr_wait_count_def decr_wait_count_def ELL_ASSERT_def
      set_active_def split: sum.splits if_splits\<close>)

lemma run_deliveries:
  "run ty xs t = Inr (evs, t') \<Longrightarrow>
     count_list evs Delivered + (if pending_cancel_m t' then 1 else 0)
       \<le> count_list xs Cancel + (if pending_cancel_m t then 1 else 0)"
proof (induction xs arbitrary: t evs)
  case Nil
  then show ?case by simp
next
  case (Cons x xs)
  from Cons.prems obtain e1 t1 e2 where
    s: "step ty x t = Inr (e1, t1)" and r: "run ty xs t1 = Inr (e2, t')" and e: "evs = e1 @ e2"
    by (auto split: sum.splits)
  from step_deliveries [OF s] Cons.IH [OF r] e show ?case
    by (simp split: if_splits)
qed

lemma step_delivered_only_resume:
  assumes "step ty x t = Inr (evs, t')" and "Delivered \<in> set evs"
  shows "x = Resume \<and> pending_cancel_m t \<and> \<not> pending_cancel_m t'
         \<and> (\<exists>ty' k h. coroutine_m t = InSuspend ty' k h)"
proof -
  from assms have d: "count_list evs Delivered \<noteq> 0"
    by (simp add: count_list_0_iff)
  have x: "x = Resume"
    using assms by (cases x) (auto simp: get_result_def split: sum.splits)
  with assms have r: "resume t = Inr (evs, t')" by simp
  from resume_deliveries [OF r] d have p: "pending_cancel_m t \<and> \<not> pending_cancel_m t'"
    by (simp split: if_splits)
  have "\<exists>ty' k h. coroutine_m t = InSuspend ty' k h"
  proof (cases "coroutine_m t")
    case (AtBarrier c)
    with r have "top_frame (ret_type c) (body c) t = Inr (evs, t')"
      by (simp add: resume_def call_coroutine_def)
    from top_frame_no_delivery [OF this] d show ?thesis by simp
  qed (use r assms(2) in \<open>auto simp: resume_def call_coroutine_def\<close>)
  with x p show ?thesis by simp
qed

section \<open>The wait count along a run\<close>

lemma step_wait_count:
  assumes "step ty x t = Inr (evs, t')"
    and "unat (wait_count_m t) + (if x = IncrWaitCount then 1 else 0) < 2 ^ 32"
  shows "unat (wait_count_m t') + (if x = DecrWaitCount then 1 else 0) =
           unat (wait_count_m t) + (if x = IncrWaitCount then 1 else 0)"
proof (cases x)
  case Resume
  with assms(1) show ?thesis
    by (auto simp: resume_def call_coroutine_def suspend_after_yield_def
        split: coroutine.splits if_splits sum.splits dest: top_frame_keeps)
next
  case IncrWaitCount
  with assms(2) have "unat (wait_count_m t) + unat (1 :: 32 word) < 2 ^ LENGTH(32)" by simp
  then have "unat (wait_count_m t + 1) = unat (wait_count_m t) + unat (1 :: 32 word)"
    by (simp only: unat_add_lem)
  with IncrWaitCount assms(1) show ?thesis by (auto simp: incr_wait_count_def)
next
  case DecrWaitCount
  with assms(1) have nz: "wait_count_m t \<noteq> 0" and t': "t' = t\<lparr>wait_count_m := wait_count_m t - 1\<rparr>"
    by (auto simp: decr_wait_count_def ELL_ASSERT_def word_gt_0 split: if_splits)
  from nz have "0 < unat (wait_count_m t)" by (simp add: unat_gt_0)
  with nz t' DecrWaitCount show ?thesis by (simp add: unat_minus_one)
next
  case GetResult
  with assms(1) show ?thesis by (auto simp: get_result_def split: sum.splits)
qed (use assms(1) in \<open>auto simp: cancel_def set_active_def\<close>)

lemma run_wait_count:
  "run ty xs t = Inr (evs, t') \<Longrightarrow>
   unat (wait_count_m t) + count_list xs IncrWaitCount < 2 ^ 32 \<Longrightarrow>
   unat (wait_count_m t') + count_list xs DecrWaitCount =
     unat (wait_count_m t) + count_list xs IncrWaitCount"
proof (induction xs arbitrary: t evs)
  case Nil
  then show ?case by simp
next
  case (Cons x xs)
  from Cons.prems(1) obtain e1 t1 e2 where
    s: "step ty x t = Inr (e1, t1)" and r: "run ty xs t1 = Inr (e2, t')"
    by (auto split: sum.splits)
  from Cons.prems(2) have b: "unat (wait_count_m t) + (if x = IncrWaitCount then 1 else 0) < 2 ^ 32"
    by (simp split: if_splits)
  note s1 = step_wait_count [OF s b]
  with Cons.prems(2) have "unat (wait_count_m t1) + count_list xs IncrWaitCount < 2 ^ 32"
    by (simp split: if_splits)
  from Cons.IH [OF r this] s1 show ?case by (simp split: if_splits)
qed

section \<open>The result slot along a run\<close>

lemma top_frame_result:
  "top_frame ty c t = Inr (evs, t') \<Longrightarrow> is_complete t' \<or> 
     (result_m t' = result_m t \<and> \<not> is_complete t')"
  by (induction c arbitrary: evs t') (auto simp: is_complete_def split: sum.splits if_splits)

lemma step_slot_empty:
  assumes "step ty x t = Inr (evs, t')"
    and "is_complete t \<or> result_m t = ResultHolderImpl_init"
  shows "is_complete t' \<or> result_m t' = ResultHolderImpl_init"
proof (cases x)
  case Resume
  with assms show ?thesis
    by (auto simp: resume_def call_coroutine_def suspend_after_yield_def is_complete_def
        split: coroutine.splits if_splits sum.splits dest!: top_frame_result)
next
  case GetResult
  with assms show ?thesis
    by (auto simp: get_result_def get_def ResultHolderImpl_init_def is_complete_def split: sum.splits option.splits)
next
  case DecrWaitCount
  with assms show ?thesis
    by (auto simp: decr_wait_count_def ELL_ASSERT_def is_complete_def split: sum.splits if_splits)
qed (use assms in \<open>auto simp: cancel_def set_active_def incr_wait_count_def is_complete_def\<close>)

lemma run_slot_empty:
  "run ty xs t = Inr (evs, t') \<Longrightarrow> is_complete t \<or> result_m t = ResultHolderImpl_init \<Longrightarrow>
   is_complete t' \<or> result_m t' = ResultHolderImpl_init"
proof (induction xs arbitrary: t evs)
  case Nil
  then show ?case by simp
next
  case (Cons x xs)
  from Cons.prems(1) obtain e1 t1 e2 where
    s: "step ty x t = Inr (e1, t1)" and r: "run ty xs t1 = Inr (e2, t')"
    by (auto split: sum.splits)
  from Cons.IH [OF r step_slot_empty [OF s Cons.prems(2)]] show ?case .
qed

lemma ctor_slot_empty:
  "TaskImpl_ctor count c = Inr (evs, t, count') \<Longrightarrow> result_m t = ResultHolderImpl_init"
  by (auto simp: task_defs split: if_splits)

lemma store_over_inline_object:
  "alignof ty \<le> align \<Longrightarrow> sizeof ty \<le> buffer_size \<Longrightarrow> obj_m h = Some (Inline, w) \<Longrightarrow>
     store buffer_size align ty v h = Inr (h\<lparr>obj_m := Some (Inline, destroyed ty v)\<rparr>)"
  by (simp add: store_def assign_obj_def)

lemma top_frame_leaves_value:
  "leaves c = Some (Returned v) \<Longrightarrow> obj_m (result_m t) = None \<Longrightarrow>
   top_frame ty c t = Inr (evs, t1) \<Longrightarrow>
     coroutine_m t1 = Complete \<and> eptr_m (result_m t1) = eptr_m (result_m t)
     \<and> (\<exists>p. obj_m (result_m t1) = Some (p, v))"
  by (induction c arbitrary: evs) (auto simp: rh_defs split: sum.splits if_splits)

lemma top_frame_leaves_failure:
  "leaves c = Some (Raised e) \<Longrightarrow> top_frame ty c t = Inr (evs, t1) \<Longrightarrow>
     coroutine_m t1 = Complete \<and> eptr_m (result_m t1) = Some e"
  by (induction c arbitrary: evs) (auto simp: rh_defs split: sum.splits if_splits)

lemma top_frame_captures:
  "leaves c = Some (Raised e) \<Longrightarrow> is_std_exception e \<Longrightarrow> eptr_m (result_m t) = None \<Longrightarrow>
     \<exists>evs t1. top_frame ty c t = Inr (evs, t1)"
  by (induction c) (auto simp: rh_defs split: sum.splits if_splits)

lemma top_frame_uncaught:
  "leaves c = Some (Raised e) \<Longrightarrow> \<not> is_std_exception e \<Longrightarrow> top_frame ty c t = Inl (Uncaught e)"
  by (induction c) (auto simp: rh_defs split: sum.splits if_splits)

lemma get_result_failure:
  "eptr_m (result_m t) = Some e \<Longrightarrow> get_result ty t = Inr (Raised e, t)"
  by (simp add: get_result_def get_def)

lemma get_result_value:
  "eptr_m (result_m t) = None \<Longrightarrow> obj_m (result_m t) = Some (p, v) \<Longrightarrow>
   get_result ty t = Inr (Returned v, t\<lparr>result_m := (result_m t)\<lparr>obj_m := Some (p, moved_from ty v)\<rparr>\<rparr>)"
  by (simp add: get_result_def get_def)

lemma cancelled_flag_unchanged:
  "run ty xs t = Inr (evs, t') \<Longrightarrow> cancelled t' = cancelled t"
proof (induction xs arbitrary: t evs)
  case Nil
  then show ?case by simp
next
  case (Cons x xs)
  from Cons.prems obtain e1 t1 e2 where
    s: "step ty x t = Inr (e1, t1)" and r: "run ty xs t1 = Inr (e2, t')"
    by (auto split: sum.splits)
  have "cancelled_m t1 = cancelled_m t"
  proof (cases x)
    case Resume
    with s show ?thesis
      by (auto simp: resume_def call_coroutine_def suspend_after_yield_def
        split: coroutine.splits if_splits sum.splits dest: top_frame_keeps)
  next
    case GetResult
    with s show ?thesis by (auto simp: get_result_def split: sum.splits)
  qed (use s in \<open>auto simp: cancel_def set_active_def incr_wait_count_def decr_wait_count_def
        ELL_ASSERT_def split: if_splits\<close>)
  with Cons.IH [OF r] show ?case by (simp add: cancelled_def)
qed

section \<open>The claims\<close>

text \<open>
  Claim C1. When \<open>suspend()\<close> is re-entered with \<open>pending_cancel_\<close> set, it clears the flag and
  throws \<open>Cancelled\<close>, and the resumed coroutine goes on in the user's handler, after the
  delivery and before any other user code. Along every sequence of calls on a task with
  no cancellation pending, \<open>Cancelled\<close> is delivered at most as often as \<open>cancel()\<close> is called.
  A call that delivers \<open>Cancelled\<close> is a \<open>resume()\<close> of a coroutine stopped inside \<open>suspend()\<close>
  with the flag set, and it leaves the flag cleared: no other member function delivers.
\<close>

theorem cancellation_delivered_by_suspend:
  "(pending_cancel_m t \<longrightarrow>
      suspend_after_yield t = (Raised Cancelled, t\<lparr>pending_cancel_m := False\<rparr>))
   \<and> (coroutine_m t = InSuspend ty k h \<and> pending_cancel_m t \<longrightarrow>
      resume t =
        (case top_frame ty h (t\<lparr>pending_cancel_m := False\<rparr>) of
           Inl f \<Rightarrow> Inl f
         | Inr (evs, t') \<Rightarrow> Inr (Delivered # evs, t')))
   \<and> (\<not> pending_cancel_m s \<and> run ty' xs s = Inr (evs, s') \<longrightarrow>
      count_list evs Delivered \<le> count_list xs Cancel)
   \<and> (step ty' x u = Inr (evs', u') \<and> Delivered \<in> set evs' \<longrightarrow>
      x = Resume \<and> pending_cancel_m u \<and> \<not> pending_cancel_m u'
      \<and> (\<exists>ty'' k' h'. coroutine_m u = InSuspend ty'' k' h'))"
proof (intro conjI impI)
  assume "pending_cancel_m t"
  then show "suspend_after_yield t = (Raised Cancelled, t\<lparr>pending_cancel_m := False\<rparr>)"
    by (simp add: suspend_after_yield_def)
next
  assume "coroutine_m t = InSuspend ty k h \<and> pending_cancel_m t"
  then show "resume t =
        (case top_frame ty h (t\<lparr>pending_cancel_m := False\<rparr>) of
           Inl f \<Rightarrow> Inl f
         | Inr (evs, t') \<Rightarrow> Inr (Delivered # evs, t'))"
    by (simp add: resume_def call_coroutine_def suspend_after_yield_def)
next
  assume a: "\<not> pending_cancel_m s \<and> run ty' xs s = Inr (evs, s')"
  then have "run ty' xs s = Inr (evs, s')" by simp
  from run_deliveries [OF this] a show "count_list evs Delivered \<le> count_list xs Cancel"
    by (simp split: if_splits)
next
  assume a: "step ty' x u = Inr (evs', u') \<and> Delivered \<in> set evs'"
  then have "x = Resume \<and> pending_cancel_m u \<and> \<not> pending_cancel_m u'
      \<and> (\<exists>ty'' k' h'. coroutine_m u = InSuspend ty'' k' h')"
    using step_delivered_only_resume [of ty' x u evs' u'] by blast
  then show "x = Resume" "pending_cancel_m u" "\<not> pending_cancel_m u'"
    "\<exists>ty'' k' h'. coroutine_m u = InSuspend ty'' k' h'" by simp_all
qed

theorem cancellation_delivered_by_suspend_witness:
  "pending_cancel_m (cancel suspended_task)
   \<and> coroutine_m (cancel suspended_task)
       = InSuspend int_type (Act 3 (Return 42)) (Act 2 (Throw Cancelled))
   \<and> suspend_after_yield (cancel suspended_task) = (Raised Cancelled, suspended_task)
   \<and> resume (cancel suspended_task) = Inr ([Delivered, Ran 2], cancelled_task)
   \<and> \<not> pending_cancel_m suspended_task
   \<and> run int_type [Cancel, Cancel, Resume, GetResult] suspended_task
       = Inr ([Delivered, Ran 2], cancelled_task)
   \<and> count_list [Delivered, Ran 2] Delivered \<le> count_list [Cancel, Cancel, Resume, GetResult] Cancel
   \<and> step int_type Resume (cancel suspended_task) = Inr ([Delivered, Ran 2], cancelled_task)
   \<and> Delivered \<in> set [Delivered, Ran 2]
   \<and> \<not> pending_cancel_m cancelled_task"
  using cancellation_delivered_by_suspend
    [where t = "cancel suspended_task" and ty = int_type and k = "Act 3 (Return 42)"
       and h = "Act 2 (Throw Cancelled)" and s = suspended_task and ty' = int_type
       and xs = "[Cancel, Cancel, Resume, GetResult]" and evs = "[Delivered, Ran 2]"
       and s' = cancelled_task and x = Resume and u = "cancel suspended_task"
       and evs' = "[Delivered, Ran 2]" and u' = cancelled_task]
  by (simp add: task_defs rh_defs example_defs)

text \<open>
  Claim C2 says that once \<open>Cancelled\<close> has been delivered, \<open>cancelled()\<close> returns true. The
  code sets \<open>cancelled_\<close> to false in the constructor and assigns it nowhere else. Here a
  task is constructed from the example callable, resumed, cancelled and resumed: the
  second \<open>resume()\<close> delivers \<open>Cancelled\<close>, the task completes with \<open>Cancelled\<close> stored, and
  \<open>cancelled()\<close> still returns false.
\<close>

theorem cancelled_flag_not_set_on_delivery:
  "TaskImpl_ctor 0 example_callable = Inr ([], task_at_barrier 1 example_callable, 1)
   \<and> run int_type [Resume, Cancel, Resume] (task_at_barrier 1 example_callable)
       = Inr ([Ran 1, Delivered, Ran 2], cancelled_task)
   \<and> cancelled cancelled_task = False"
  by (simp add: task_defs rh_defs example_defs cancelled_def)

text \<open>
  Claim C3, as amended. When the coroutine's user code returns \<open>v\<close> into an empty slot, the
  task is complete and \<open>get_result\<close> returns \<open>v\<close>; when it leaves by a failure that the top
  frame stores, the task is complete and \<open>get_result\<close> throws that failure. Retrieval does
  not empty the slot: the stored failure stays, so that \<open>get_result\<close> leaves the task as it
  was, and the stored object stays, moved from, so that a second \<open>get_result\<close> returns what
  the move constructor left (the same value for a trivially copyable type).
\<close>

theorem get_result_of_completed_task:
  "(leaves c = Some (Returned v) \<and> eptr_m (result_m t) = None \<and> obj_m (result_m t) = None
      \<and> top_frame ty c t = Inr (evs, t1) \<longrightarrow>
      is_complete t1
      \<and> (\<exists>t2 t3. get_result ty t1 = Inr (Returned v, t2)
            \<and> get_result ty t2 = Inr (Returned (moved_from ty v), t3)))
   \<and> (leaves c' = Some (Raised e) \<and> top_frame ty c' t' = Inr (evs', t1') \<longrightarrow>
      is_complete t1' \<and> get_result ty t1' = Inr (Raised e, t1'))"
proof (intro conjI impI)
  assume a: "leaves c = Some (Returned v) \<and> eptr_m (result_m t) = None \<and> obj_m (result_m t) = None
      \<and> top_frame ty c t = Inr (evs, t1)"
  with top_frame_leaves_value [where c = c and v = v and ty = ty and t = t and evs = evs
      and ?t1.0 = t1] obtain p where
    c: "coroutine_m t1 = Complete" and e: "eptr_m (result_m t1) = None"
    and p: "obj_m (result_m t1) = Some (p, v)" by auto
  from c show "is_complete t1" by (simp add: is_complete_def)
  let ?t2 = "t1\<lparr>result_m := (result_m t1)\<lparr>obj_m := Some (p, moved_from ty v)\<rparr>\<rparr>"
  have "get_result ty t1 = Inr (Returned v, ?t2)" using get_result_value [OF e p] .
  moreover have "\<exists>t3. get_result ty ?t2 = Inr (Returned (moved_from ty v), t3)"
    using e by (simp add: get_result_def get_def)
  ultimately show "\<exists>t2 t3. get_result ty t1 = Inr (Returned v, t2)
            \<and> get_result ty t2 = Inr (Returned (moved_from ty v), t3)" by blast
next
  assume a: "leaves c' = Some (Raised e) \<and> top_frame ty c' t' = Inr (evs', t1')"
  with top_frame_leaves_failure [of c' e ty t' evs' t1'] have
    c: "coroutine_m t1' = Complete" and e: "eptr_m (result_m t1') = Some e" by auto
  from c show "is_complete t1'" by (simp add: is_complete_def)
  from e show "get_result ty t1' = Inr (Raised e, t1')" by (rule get_result_failure)
qed

theorem get_result_of_completed_task_witness:
  "leaves (Act 3 (Return (42 :: int))) = Some (Returned 42)
   \<and> eptr_m (result_m suspended_task) = None
   \<and> obj_m (result_m suspended_task) = None
   \<and> top_frame int_type (Act 3 (Return 42)) suspended_task = Inr ([Ran 3], returned_task)
   \<and> is_complete returned_task
   \<and> (\<exists>t2 t3. get_result int_type returned_task = Inr (Returned 42, t2)
         \<and> get_result int_type t2 = Inr (Returned (moved_from int_type 42), t3))
   \<and> leaves (Act 2 (Throw Cancelled) :: int code) = Some (Raised Cancelled)
   \<and> top_frame int_type (Act 2 (Throw Cancelled)) suspended_task = Inr ([Ran 2], cancelled_task)
   \<and> is_complete cancelled_task
   \<and> get_result int_type cancelled_task = Inr (Raised Cancelled, cancelled_task)"
  using get_result_of_completed_task
    [where c = "Act 3 (Return 42)" and v = 42 and t = suspended_task and ty = int_type
       and evs = "[Ran 3]" and ?t1.0 = returned_task and c' = "Act 2 (Throw Cancelled)"
       and e = Cancelled and t' = suspended_task and evs' = "[Ran 2]" and t1' = cancelled_task]
  by (simp add: task_defs rh_defs example_defs returned_task_def)

text \<open>
  Claim C3 as stated fails where it has the result retrievable at most once. The task
  made from the example callable and resumed twice is complete with 42 stored; \<open>get_result\<close>
  returns 42 and leaves the task as it was, and a second \<open>get_result\<close> returns 42 again. The
  task that completed with \<open>Cancelled\<close> throws it at every \<open>get_result\<close>.
\<close>

theorem result_retrievable_twice:
  "run int_type [Resume, Resume] (task_at_barrier 1 example_callable)
     = Inr ([Ran 1, Ran 3], returned_task)
   \<and> is_complete returned_task
   \<and> get_result int_type returned_task = Inr (Returned 42, returned_task)
   \<and> (case get_result int_type returned_task of
         Inl f \<Rightarrow> Inl f
       | Inr (r, t') \<Rightarrow> get_result int_type t') = Inr (Returned 42, returned_task)
   \<and> (case get_result int_type cancelled_task of
         Inl f \<Rightarrow> Inl f
       | Inr (r, t') \<Rightarrow> get_result int_type t') = Inr (Raised Cancelled, cancelled_task)"
  by (simp add: task_defs rh_defs example_defs returned_task_def)

text \<open>
  Claim C4, as amended. \<open>get_result\<close> has no test of completion and the code has no
  \<open>ResultNotReady\<close>: on every task that a constructor made and that any sequence of calls
  has left not complete, the slot is empty, and \<open>get_result\<close> dereferences the null \<open>obj_\<close>.
\<close>

theorem get_result_before_completion:
  "TaskImpl_ctor count c = Inr (evs0, t0, count') \<and> run ty xs t0 = Inr (evs, t) \<and> \<not> is_complete t
     \<longrightarrow> get_result ty t = Inl NullDeref"
proof
  assume a: "TaskImpl_ctor count c = Inr (evs0, t0, count') \<and> run ty xs t0 = Inr (evs, t) \<and> \<not> is_complete t"
  then have "result_m t0 = ResultHolderImpl_init" using ctor_slot_empty by blast
  with a run_slot_empty [of ty xs t0 evs t] have "result_m t = ResultHolderImpl_init" by blast
  then show "get_result ty t = Inl NullDeref"
    by (simp add: get_result_def get_def ResultHolderImpl_init_def)
qed

theorem get_result_before_completion_witness:
  "TaskImpl_ctor 0 example_callable = Inr ([], task_at_barrier 1 example_callable, 1)
   \<and> run int_type [Resume, Cancel] (task_at_barrier 1 example_callable)
       = Inr ([Ran 1], cancel suspended_task)
   \<and> \<not> is_complete (cancel suspended_task)
   \<and> get_result int_type (cancel suspended_task) = Inl NullDeref"
  using get_result_before_completion
    [where count = 0 and c = example_callable and ?evs0.0 = "[]"
       and ?t0.0 = "task_at_barrier 1 example_callable" and count' = 1 and ty = int_type
       and xs = "[Resume, Cancel]" and evs = "[Ran 1]" and t = "cancel suspended_task"]
  by (simp add: task_defs rh_defs example_defs)

text \<open>
  Claim C4 as stated fails: on the task just constructed from the example callable, which
  is not complete, \<open>get_result\<close> throws nothing; it dereferences a null pointer.
\<close>

theorem get_result_not_ready_is_null_dereference:
  "TaskImpl_ctor 0 example_callable = Inr ([], task_at_barrier 1 example_callable, 1)
   \<and> \<not> is_complete (task_at_barrier 1 example_callable)
   \<and> get_result int_type (task_at_barrier 1 example_callable) = Inl NullDeref
   \<and> get_result int_type (task_at_barrier 1 example_callable)
        \<noteq> Inr (Raised (StdException ''ResultNotReady''), task_at_barrier 1 example_callable)"
  by (simp add: task_defs rh_defs example_defs)

text \<open>
  Claim C5 says that a second store into the result slot is an invariant violation and
  not a silent overwrite. \<open>store_exception\<close> asserts that no exception is stored; \<open>store\<close>
  asserts nothing. On a \<open>ResultHolder\<close> that holds the \<open>int\<close> 1, \<open>store(2)\<close> succeeds and \<open>get\<close>
  then returns 2; \<open>store_exception\<close> succeeds too and the holder has a value and a failure;
  only a second \<open>store_exception\<close> fails its assertion.
\<close>

theorem second_store_overwrites:
  "ResultHolder_store int_type 1 ResultHolderImpl_init = Inr \<lparr>eptr_m = None, obj_m = Some (Inline, 1)\<rparr>
   \<and> ResultHolder_store int_type 2 \<lparr>eptr_m = None, obj_m = Some (Inline, 1)\<rparr>
       = Inr \<lparr>eptr_m = None, obj_m = Some (Inline, 2)\<rparr>
   \<and> get int_type \<lparr>eptr_m = None, obj_m = Some (Inline, 2)\<rparr>
       = Inr (Returned 2, \<lparr>eptr_m = None, obj_m = Some (Inline, 2)\<rparr>)
   \<and> store_exception (StdException ''e'') \<lparr>eptr_m = None, obj_m = Some (Inline, 1 :: int)\<rparr>
       = Inr \<lparr>eptr_m = Some (StdException ''e''), obj_m = Some (Inline, 1)\<rparr>
   \<and> store_exception (StdException ''f'') \<lparr>eptr_m = Some (StdException ''e''), obj_m = Some (Inline, 1 :: int)\<rparr>
       = Inl AssertFailed"
  by (simp add: rh_defs int_type_def)

text \<open>
  Claim C6. A value whose type passes the \<open>static_assert\<close> on the alignment is stored by the
  default \<open>ResultHolder\<close>, when the holder is empty, in the inline buffer when \<open>sizeof(T)\<close> is
  at most 32 and in an object made by \<open>new\<close> otherwise, and in both cases a \<open>get\<close> then returns
  the value. (A store into a holder that already has an object in the inline buffer is
  another matter: \<open>store_over_inline_object\<close>.)
\<close>

theorem small_object_optimisation:
  "alignof ty \<le> 8 \<and> eptr_m h = None \<and> obj_m h = None \<longrightarrow>
     (\<exists>h'. ResultHolder_store ty v h = Inr h'
        \<and> obj_m h' = Some (if sizeof ty \<le> 32 then Inline else Heap, v)
        \<and> (\<exists>h''. get ty h' = Inr (Returned v, h'')))"
  by (simp add: rh_defs)

theorem small_object_optimisation_witness:
  "eptr_m (ResultHolderImpl_init :: int ResultHolderImpl) = None
   \<and> obj_m (ResultHolderImpl_init :: int ResultHolderImpl) = None
   \<and> alignof int_type \<le> 8 \<and> sizeof int_type \<le> 32
   \<and> alignof (big_type (0 :: int)) \<le> 8 \<and> \<not> sizeof (big_type (0 :: int)) \<le> 32
   \<and> (\<exists>h'. ResultHolder_store int_type 42 ResultHolderImpl_init = Inr h'
        \<and> obj_m h' = Some (Inline, 42) \<and> (\<exists>h''. get int_type h' = Inr (Returned 42, h'')))
   \<and> (\<exists>h'. ResultHolder_store (big_type 0) (42 :: int) ResultHolderImpl_init = Inr h'
        \<and> obj_m h' = Some (Heap, 42) \<and> (\<exists>h''. get (big_type 0) h' = Inr (Returned 42, h'')))"
  using small_object_optimisation [where ty = int_type and h = ResultHolderImpl_init and v = 42]
    small_object_optimisation
      [where ty = "big_type (0 :: int)" and h = ResultHolderImpl_init and v = 42]
  by (simp add: int_type_def big_type_def ResultHolderImpl_init_def)

text \<open>
  Claim C7, as amended. The top frame catches \<open>const std::exception &\<close>: a failure of a
  class derived from \<open>std::exception\<close> (\<open>Cancelled\<close> among them) with which the user code
  leaves is stored in the empty slot, the task is complete, and \<open>get_result\<close> throws that
  failure. A thrown object of any other type is not caught: it leaves the coroutine
  function and nothing is stored.
\<close>

theorem std_failure_captured_and_reraised:
  "(leaves c = Some (Raised e) \<and> is_std_exception e \<and> eptr_m (result_m t) = None \<longrightarrow>
      (\<exists>evs t1. top_frame ty c t = Inr (evs, t1) \<and> is_complete t1
         \<and> eptr_m (result_m t1) = Some e \<and> get_result ty t1 = Inr (Raised e, t1)))
   \<and> (leaves c' = Some (Raised e') \<and> \<not> is_std_exception e' \<longrightarrow>
        top_frame ty c' t' = Inl (Uncaught e'))"
proof (intro conjI impI)
  assume a: "leaves c = Some (Raised e) \<and> is_std_exception e \<and> eptr_m (result_m t) = None"
  with top_frame_captures [of c e t ty] obtain evs t1 where
    tf: "top_frame ty c t = Inr (evs, t1)" by auto
  with a top_frame_leaves_failure [of c e ty t evs t1] have
    c: "coroutine_m t1 = Complete" and e: "eptr_m (result_m t1) = Some e" by auto
  from c have "is_complete t1" by (simp add: is_complete_def)
  with tf e get_result_failure [OF e, of ty]
  show "\<exists>evs t1. top_frame ty c t = Inr (evs, t1) \<and> is_complete t1
         \<and> eptr_m (result_m t1) = Some e \<and> get_result ty t1 = Inr (Raised e, t1)" by blast
next
  assume "leaves c' = Some (Raised e') \<and> \<not> is_std_exception e'"
  then show "top_frame ty c' t' = Inl (Uncaught e')" using top_frame_uncaught by blast
qed

theorem std_failure_captured_and_reraised_witness:
  "leaves (Act 2 (Throw Cancelled) :: int code) = Some (Raised Cancelled)
   \<and> is_std_exception Cancelled
   \<and> eptr_m (result_m suspended_task) = None
   \<and> (\<exists>evs t1. top_frame int_type (Act 2 (Throw Cancelled)) suspended_task = Inr (evs, t1)
         \<and> is_complete t1 \<and> eptr_m (result_m t1) = Some Cancelled
         \<and> get_result int_type t1 = Inr (Raised Cancelled, t1))
   \<and> leaves (Throw (NonStd ''int'') :: int code) = Some (Raised (NonStd ''int''))
   \<and> \<not> is_std_exception (NonStd ''int'')
   \<and> top_frame int_type (Throw (NonStd ''int'')) suspended_task = Inl (Uncaught (NonStd ''int''))"
  using std_failure_captured_and_reraised
    [where c = "Act 2 (Throw Cancelled)" and e = Cancelled and t = suspended_task
       and ty = int_type and c' = "Throw (NonStd ''int'')" and e' = "NonStd ''int''"
       and t' = suspended_task]
  by (simp add: suspended_task_def rh_defs)

text \<open>
  Claim C7 as stated fails for a failure that is not a \<open>std::exception\<close>. The task made
  from a callable that throws an \<open>int\<close> is resumed: the thrown object passes the handler of
  the top frame and leaves the coroutine function; the slot is not written.
\<close>

theorem non_std_failure_not_captured:
  "TaskImpl_ctor 0 throwing_callable = Inr ([], task_at_barrier 1 throwing_callable, 1)
   \<and> leaves (body throwing_callable) = Some (Raised (NonStd ''int''))
   \<and> resume (task_at_barrier 1 throwing_callable) = Inl (Uncaught (NonStd ''int''))
   \<and> eptr_m (result_m (task_at_barrier 1 throwing_callable)) = None"
  by (simp add: task_defs rh_defs example_defs throwing_callable_def)

text \<open>
  Claim C8. The constructor, when \<open>next_id\<close> has an id left, returns the task stopped at the
  entry barrier with no step of the callable run (the capture of the lambda copies the
  callable; its call operator is not entered), whatever the callable is; the task is not
  complete. The first \<open>resume()\<close> runs the callable's body from its start in the top frame,
  and a body that begins with a step has that step as the first event of the resume.
\<close>

theorem construction_stops_at_entry_barrier:
  "TaskImpl_ctor count c =
     (if count = - 1 then Inl AssertFailed
      else Inr ([], task_at_barrier (count + 1) c, count + 1))
   \<and> \<not> is_complete (task_at_barrier (count + 1) c)
   \<and> resume (task_at_barrier (count + 1) c) =
       top_frame (ret_type c) (body c) (task_at_barrier (count + 1) c)
   \<and> resume (task_at_barrier i \<lparr>ret_type = ty, body = Act a k\<rparr>) =
       (case top_frame ty k (task_at_barrier i \<lparr>ret_type = ty, body = Act a k\<rparr>) of
          Inl f \<Rightarrow> Inl f
        | Inr (evs, t') \<Rightarrow> Inr (Ran a # evs, t'))"
  by (simp add: task_defs task_at_barrier_def)

text \<open>
  Claim C9. \<open>decr_wait_count\<close> on a wait count of zero fails its assertion instead of
  wrapping around, so that every decrement that returns started from a positive count and
  took exactly one off. Along every sequence of calls that no assertion ends and in which the
  increments do not overflow the 32 bits, the decrements made never exceed the initial
  count plus the increments made, and \<open>wait_count()\<close> reports exactly the difference: a
  number that never went below zero.
\<close>

theorem wait_count_never_negative:
  "(wait_count t = 0 \<longrightarrow> decr_wait_count t = Inl AssertFailed)
   \<and> (decr_wait_count u = Inr u' \<longrightarrow>
        0 < unat (wait_count u) \<and> unat (wait_count u') = unat (wait_count u) - 1)
   \<and> (run ty xs s = Inr (evs, s') \<and> unat (wait_count s) + count_list xs IncrWaitCount < 2 ^ 32 \<longrightarrow>
        count_list xs DecrWaitCount \<le> unat (wait_count s) + count_list xs IncrWaitCount
        \<and> unat (wait_count s') =
            unat (wait_count s) + count_list xs IncrWaitCount - count_list xs DecrWaitCount)"
proof (intro conjI impI)
  assume "wait_count t = 0"
  then show "decr_wait_count t = Inl AssertFailed"
    by (simp add: wait_count_def decr_wait_count_def ELL_ASSERT_def)
next
  assume d: "decr_wait_count u = Inr u'"
  then have nz: "wait_count_m u \<noteq> 0" and u': "u' = u\<lparr>wait_count_m := wait_count_m u - 1\<rparr>"
    by (auto simp: decr_wait_count_def ELL_ASSERT_def word_gt_0 split: if_splits)
  from nz show "0 < unat (wait_count u)"
    by (simp add: wait_count_def unat_gt_0)
  from nz u' show "unat (wait_count u') = unat (wait_count u) - 1"
    by (simp add: wait_count_def unat_minus_one)
next
  assume a: "run ty xs s = Inr (evs, s') \<and> unat (wait_count s) + count_list xs IncrWaitCount < 2 ^ 32"
  then have e: "unat (wait_count s') + count_list xs DecrWaitCount =
     unat (wait_count s) + count_list xs IncrWaitCount"
    using run_wait_count [of ty xs s evs s'] by (simp add: wait_count_def)
  then show "count_list xs DecrWaitCount \<le> unat (wait_count s) + count_list xs IncrWaitCount"
    by arith
  from e show "unat (wait_count s') =
            unat (wait_count s) + count_list xs IncrWaitCount - count_list xs DecrWaitCount"
    by arith
qed

theorem wait_count_never_negative_witness:
  "wait_count suspended_task = 0
   \<and> decr_wait_count suspended_task = Inl AssertFailed
   \<and> decr_wait_count (suspended_task\<lparr>wait_count_m := 2\<rparr>)
       = Inr (suspended_task\<lparr>wait_count_m := 1\<rparr>)
   \<and> unat (wait_count (suspended_task\<lparr>wait_count_m := 2\<rparr>)) = 2
   \<and> run int_type [IncrWaitCount, IncrWaitCount, DecrWaitCount] suspended_task
       = Inr ([], suspended_task\<lparr>wait_count_m := 1\<rparr>)
   \<and> unat (wait_count suspended_task)
        + count_list [IncrWaitCount, IncrWaitCount, DecrWaitCount] IncrWaitCount < 2 ^ 32
   \<and> unat (wait_count (suspended_task\<lparr>wait_count_m := 1\<rparr>)) = 1
   \<and> run int_type [IncrWaitCount, DecrWaitCount, DecrWaitCount] suspended_task = Inl AssertFailed"
  using wait_count_never_negative
    [where t = suspended_task and u = "suspended_task\<lparr>wait_count_m := 2\<rparr>"
       and u' = "suspended_task\<lparr>wait_count_m := 1\<rparr>" and ty = int_type
       and xs = "[IncrWaitCount, IncrWaitCount, DecrWaitCount]" and s = suspended_task
       and evs = "[]" and s' = "suspended_task\<lparr>wait_count_m := 1\<rparr>"]
  by (simp add: task_defs example_defs wait_count_def)

text \<open>
  Claim C10. \<open>get_current_event_loop()\<close> returns the null pointer while the static has its
  initial value and after \<open>set_current_event_loop(nullptr)\<close>. \<open>yield()\<close> and \<open>sleep(duration)\<close>
  test nothing: with a null current loop they dereference it, and with a loop installed
  they call its member function.
\<close>

theorem no_current_loop_is_null_dereference:
  "fst (get_current_event_loop (current_loop_init :: 'l option)) = None
   \<and> fst (get_current_event_loop (snd (set_current_event_loop (None :: 'l option) True cur))) = None
   \<and> yield (f :: 'l \<Rightarrow> 'r) current_loop_init = Inl NullDeref
   \<and> sleep (g :: 'l \<Rightarrow> 'd \<Rightarrow> 'r) d current_loop_init = Inl NullDeref
   \<and> yield f (snd (set_current_event_loop None True cur)) = Inl NullDeref
   \<and> sleep g d (snd (set_current_event_loop None True cur)) = Inl NullDeref
   \<and> yield f (snd (set_current_event_loop (Some l) True cur)) = Inr (f l)
   \<and> sleep g d (snd (set_current_event_loop (Some l) True cur)) = Inr (g l d)"
  by (simp add: get_current_event_loop_def set_current_event_loop_def current_loop_init_def Let_def
      yield_def sleep_def)

end
